theory Spec2Isabelle
  imports Main
begin

section \<open>Data model\<close>

text \<open>
  The Prisma model \<open>Link\<close> (id, url, shortCode, createdAt, expiresAt, clicks).
  Timestamps are milliseconds since the epoch, as \<open>Date.getTime()\<close> reads them;
  the \<open>cuid\<close> identifier is a number handed out by the store.
\<close>

record Link =
  link_id :: nat
  url :: string
  shortCode :: string
  createdAt :: int
  expiresAt :: "int option"
  clicks :: int

text \<open>Every awaited call to Redis or Prisma, as it appears in the sources.\<close>

datatype call =
    Redis_get string
  | Redis_set string string int
  | Find_unique string
  | Create string string "int option"
  | Update_by_code string
  | Update_by_id nat
  | Find_many

datatype exn = Cache_unavailable | Store_unavailable | Unique_violation | Record_not_found

text \<open>
  The two closures handed to \<open>after(...)\<close> in \<open>app/[code]/route.ts\<close>: the one of the
  cache-hit branch captures \<open>code\<close>; the one of the cache-miss branch captures \<open>code\<close>,
  \<open>link.url\<close>, \<open>ttl\<close> and \<open>link.id\<close>. Neither captures a click count.
\<close>

datatype task =
    Hit_task string
  | Miss_task string string int nat

text \<open>
  The world a request runs in. \<open>links\<close> is the table, \<open>cache\<close> maps a Redis key to
  its value and the instant at which the key expires, \<open>pending\<close> holds the callbacks
  registered with \<open>after\<close>. \<open>calls\<close> records every external call made so far, and
  \<open>faults\<close> says which of them throw: the call made when \<open>n\<close> calls are on record
  throws iff \<open>faults n\<close>.

  \<open>clock\<close> is what \<open>new Date()\<close> and \<open>Date.now()\<close> read on the application server,
  \<open>store_clock\<close> what the store's own \<open>now()\<close> reads; nothing relates the two.
  \<open>LocalTZA t isUTC\<close> is the offset of the server's local time zone as ECMAScript
  defines it: at the UTC instant \<open>t\<close> when \<open>isUTC\<close>, at the local time \<open>t\<close> otherwise.

  \<open>gen\<close> is the short-code generator of \<open>lib/utils.ts\<close>, which is not among the sources,
  as a sequence of outputs. \<open>parse_scheme\<close> is the platform's URL parser: the scheme of
  an absolute URL, \<open>None\<close> for a string that does not parse as one.
\<close>

record world =
  links :: "Link list"
  cache :: "string \<Rightarrow> (string \<times> int) option"
  clock :: int
  store_clock :: int
  LocalTZA :: "int \<Rightarrow> bool \<Rightarrow> int"
  next_id :: nat
  gen :: "nat \<Rightarrow> string"
  gen_calls :: nat
  parse_scheme :: "string \<Rightarrow> string option"
  faults :: "nat \<Rightarrow> bool"
  calls :: "call list"
  pending :: "task list"

definition call_fails :: "world \<Rightarrow> bool" where
  "call_fails w = faults w (length (calls w))"

definition logged :: "call \<Rightarrow> world \<Rightarrow> world" where
  "logged c w = w\<lparr>calls := calls w @ [c]\<rparr>"

section \<open>Cache layer (Upstash Redis)\<close>

text \<open>What Redis holds under a key: the value, unless the key has reached its expiry.\<close>

definition live_entry :: "world \<Rightarrow> string \<Rightarrow> string option" where
  "live_entry w key =
     (case cache w key of
        None \<Rightarrow> None
      | Some (v, deadline) \<Rightarrow> if clock w < deadline then Some v else None)"

definition redis_get :: "string \<Rightarrow> world \<Rightarrow> (exn + string option) \<times> world" where
  "redis_get key w =
     (if call_fails w then Inl Cache_unavailable else Inr (live_entry w key),
      logged (Redis_get key) w)"

definition redis_set :: "string \<Rightarrow> string \<Rightarrow> int \<Rightarrow> world \<Rightarrow> (exn + unit) \<times> world" where
  "redis_set key v ex w =
     (if call_fails w then (Inl Cache_unavailable, logged (Redis_set key v ex) w)
      else (Inr (),
            logged (Redis_set key v ex) (w\<lparr>cache := (cache w)(key \<mapsto> (v, clock w + ex * 1000))\<rparr>)))"

section \<open>Link store (Prisma)\<close>

definition by_code :: "string \<Rightarrow> Link \<Rightarrow> bool" where
  "by_code code l = (shortCode l = code)"

definition by_id :: "nat \<Rightarrow> Link \<Rightarrow> bool" where
  "by_id i l = (link_id l = i)"

definition findUnique :: "string \<Rightarrow> world \<Rightarrow> (exn + Link option) \<times> world" where
  "findUnique code w =
     (if call_fails w then Inl Store_unavailable else Inr (find (by_code code) (links w)),
      logged (Find_unique code) w)"

text \<open>A code collides when a record of the table holds it.\<close>

definition taken :: "world \<Rightarrow> string \<Rightarrow> bool" where
  "taken w code = (find (by_code code) (links w) \<noteq> None)"

text \<open>
  \<open>prisma.link.create\<close>: the \<open>@unique\<close> constraint on \<open>shortCode\<close> rejects a code that
  is already in the table; \<open>createdAt\<close> defaults to the store's \<open>now()\<close> and \<open>clicks\<close>
  to 0.
\<close>

definition create :: "string \<Rightarrow> string \<Rightarrow> int option \<Rightarrow> world \<Rightarrow> (exn + Link) \<times> world" where
  "create u code ex w =
     (if call_fails w then (Inl Store_unavailable, logged (Create u code ex) w)
      else if taken w code
        then (Inl Unique_violation, logged (Create u code ex) w)
      else (Inr \<lparr>link_id = next_id w, url = u, shortCode = code, createdAt = store_clock w,
                  expiresAt = ex, clicks = 0\<rparr>,
            logged (Create u code ex)
              (w\<lparr>links := links w @
                    [\<lparr>link_id = next_id w, url = u, shortCode = code, createdAt = store_clock w,
                      expiresAt = ex, clicks = 0\<rparr>],
                 next_id := Suc (next_id w)\<rparr>)))"

text \<open>\<open>data: { clicks: { increment: 1 } }\<close> on the one record the \<open>where\<close> selects.\<close>

fun increment_clicks :: "(Link \<Rightarrow> bool) \<Rightarrow> Link list \<Rightarrow> Link list" where
  "increment_clicks p [] = []"
| "increment_clicks p (l # ls) =
     (if p l then l\<lparr>clicks := clicks l + 1\<rparr> # ls else l # increment_clicks p ls)"

definition update :: "(Link \<Rightarrow> bool) \<Rightarrow> call \<Rightarrow> world \<Rightarrow> (exn + unit) \<times> world" where
  "update p c w =
     (if call_fails w then (Inl Store_unavailable, logged c w)
      else if find p (links w) = None then (Inl Record_not_found, logged c w)
      else (Inr (), logged c (w\<lparr>links := increment_clicks p (links w)\<rparr>)))"

text \<open>
  \<open>findMany({ orderBy: { createdAt: "desc" }, take: 10 })\<close>. Records with equal
  \<open>createdAt\<close> come in the order the sort leaves them; no statement below depends on it.
\<close>

definition findMany :: "world \<Rightarrow> (exn + Link list) \<times> world" where
  "findMany w =
     (if call_fails w then Inl Store_unavailable
      else Inr (take 10 (sort_key (\<lambda>l. - createdAt l) (links w))),
      logged Find_many w)"

section \<open>Creation: \<open>createShortLink\<close> and \<open>getRecentLinks\<close> (app/actions/link.ts)\<close>

text \<open>
  Modelled from the spec: the length bound of a target URL; \<open>lib/utils.ts\<close> is not among
  the sources. The spec's data model gives 2048 characters.
\<close>

definition url_length_bound :: nat where
  "url_length_bound = 2048"

text \<open>
  Modelled from the spec: \<open>isValidUrl\<close> of \<open>lib/utils.ts\<close>, which is not among the sources.
  The spec's validation of \<open>url\<close>: non-empty, parses as an absolute URL, scheme \<open>http\<close>
  or \<open>https\<close>, length within the bound. It returns a boolean and throws nothing.
\<close>

definition isValidUrl :: "world \<Rightarrow> string \<Rightarrow> bool" where
  "isValidUrl w u =
     (u \<noteq> [] \<and> length u \<le> url_length_bound \<and>
      (case parse_scheme w u of None \<Rightarrow> False | Some s \<Rightarrow> s = ''http'' \<or> s = ''https''))"

text \<open>
  The object a server action returns: \<open>{ error: m }\<close> has neither a \<open>success\<close> nor a
  \<open>link\<close> property, \<open>{ success: true, link: l }\<close> has no \<open>error\<close> property.
\<close>

record result =
  success :: "bool option"
  error :: "string option"
  link :: "Link option"

definition failure :: "string \<Rightarrow> result" where
  "failure m = \<lparr>success = None, error = Some m, link = None\<rparr>"

text \<open>
  The retry loop \<open>for (let i = 0; i < 5; i++)\<close>, with the number of iterations left as
  argument. It ends with \<open>Some code\<close> when \<open>isUnique\<close> was set, with \<open>None\<close> when the
  iterations ran out, and with the exception when \<open>findUnique\<close> threw.
\<close>

fun retry_loop :: "nat \<Rightarrow> world \<Rightarrow> (exn + string option) \<times> world" where
  "retry_loop 0 w = (Inr None, w)"
| "retry_loop (Suc n) w =
     (case findUnique (gen w (gen_calls w)) (w\<lparr>gen_calls := Suc (gen_calls w)\<rparr>) of
        (Inl e, w') \<Rightarrow> (Inl e, w')
      | (Inr None, w') \<Rightarrow> (Inr (Some (gen w (gen_calls w))), w')
      | (Inr (Some existing), w') \<Rightarrow> retry_loop n w')"

text \<open>
  \<open>d.setDate(d.getDate() + n)\<close> on a date with time value \<open>t\<close>. ECMAScript computes it
  in local time: \<open>LocalTime(t) = t + LocalTZA(t, true)\<close>, the day is moved by \<open>n\<close> with
  the time within the day kept, and \<open>UTC(t) = t - LocalTZA(t, false)\<close> gives the new time
  value.
\<close>

definition LocalTime :: "world \<Rightarrow> int \<Rightarrow> int" where
  "LocalTime w t = t + LocalTZA w t True"

definition UTC :: "world \<Rightarrow> int \<Rightarrow> int" where
  "UTC w t = t - LocalTZA w t False"

definition msPerDay :: int where
  "msPerDay = 86400000"

definition setDate_plus :: "world \<Rightarrow> int \<Rightarrow> int \<Rightarrow> int" where
  "setDate_plus w n t = UTC w (LocalTime w t + n * msPerDay)"

text \<open>
  The rest of the \<open>try\<close> block once a code was chosen: \<open>expiresAt\<close> is \<open>new Date()\<close>
  moved by \<open>setDate(getDate() + 7)\<close>, then \<open>prisma.link.create\<close>.
  \<open>revalidatePath("/")\<close> only marks the rendered page as stale and is left out.
\<close>

definition insert_link :: "string \<Rightarrow> string \<Rightarrow> world \<Rightarrow> result \<times> world" where
  "insert_link u code w =
     (case create u code (Some (setDate_plus w 7 (clock w))) w of
        (Inl e, w') \<Rightarrow> (failure ''An unexpected error occurred'', w')
      | (Inr newLink, w') \<Rightarrow> (\<lparr>success = Some True, error = None, link = Some newLink\<rparr>, w'))"

text \<open>The argument is \<open>formData.get("url")\<close>: \<open>None\<close> when the field is absent.\<close>

definition createShortLink :: "string option \<Rightarrow> world \<Rightarrow> result \<times> world" where
  "createShortLink field w =
     (case field of
        None \<Rightarrow> (failure ''URL is required'', w)
      | Some u \<Rightarrow>
          if u = [] then (failure ''URL is required'', w)
          else if \<not> isValidUrl w u
            then (failure ''Please enter a valid URL (e.g., https://example.com)'', w)
          else (case retry_loop 5 w of
                  (Inl e, w') \<Rightarrow> (failure ''An unexpected error occurred'', w')
                | (Inr None, w') \<Rightarrow>
                    (failure ''Failed to generate a unique short code. Please try again.'', w')
                | (Inr (Some code), w') \<Rightarrow> insert_link u code w'))"

text \<open>
  \<open>getRecentLinks\<close> catches whatever \<open>findMany\<close> throws and returns \<open>[]\<close>. The result
  type keeps the exception case, so that the handler below has its \<open>catch\<close> branch;
  \<open>noStore()\<close> only opts out of caching and is left out.
\<close>

definition getRecentLinks :: "world \<Rightarrow> (exn + Link list) \<times> world" where
  "getRecentLinks w =
     (case findMany w of
        (Inl e, w') \<Rightarrow> (Inr [], w')
      | (Inr ls, w') \<Rightarrow> (Inr ls, w'))"

section \<open>Listing entry point (app/api/links/route.ts)\<close>

datatype json_response = Json_links "Link list" | Json_error string nat

definition api_links_GET :: "world \<Rightarrow> json_response \<times> world" where
  "api_links_GET w =
     (case getRecentLinks w of
        (Inl e, w') \<Rightarrow> (Json_error ''Failed to fetch top links'' 500, w')
      | (Inr ls, w') \<Rightarrow> (Json_links ls, w'))"

section \<open>Redirect entry point (app/[code]/route.ts)\<close>

datatype response = Response nat string | Redirect string | No_response

definition after :: "task \<Rightarrow> world \<Rightarrow> world" where
  "after t w = w\<lparr>pending := pending w @ [t]\<rparr>"

definition cache_ttl :: "int option \<Rightarrow> int \<Rightarrow> int" where
  "cache_ttl ex now =
     (case ex of Some e \<Rightarrow> max 1 ((e - now) div 1000) | None \<Rightarrow> 604800)"

definition expired :: "Link \<Rightarrow> int \<Rightarrow> bool" where
  "expired l now = (case expiresAt l of Some e \<Rightarrow> e < now | None \<Rightarrow> False)"

text \<open>The Redis key of a code, \<open>`link:${code}`\<close>.\<close>

definition cache_key :: "string \<Rightarrow> string" where
  "cache_key code = ''link:'' @ code"

text \<open>
  \<open>if (cachedUrl)\<close> is false, and the \<open>else\<close> branch runs, when Redis holds nothing
  under the key or holds the empty string.
\<close>

definition missed :: "world \<Rightarrow> string \<Rightarrow> bool" where
  "missed w code = (case live_entry w (cache_key code) of None \<Rightarrow> True | Some v \<Rightarrow> v = [])"

text \<open>The last statement of the handler: \<open>if (urlToRedirect) redirect(urlToRedirect)\<close>.\<close>

definition finish :: "string \<Rightarrow> response" where
  "finish urlToRedirect = (if urlToRedirect \<noteq> [] then Redirect urlToRedirect else No_response)"

text \<open>The \<open>else\<close> branch, "2. Cache Miss: Query Database".\<close>

definition cache_miss :: "string \<Rightarrow> world \<Rightarrow> response \<times> world" where
  "cache_miss code w =
     (case findUnique code w of
        (Inl e, w') \<Rightarrow> (Response 500 ''Internal Server Error'', w')
      | (Inr None, w') \<Rightarrow> (Response 404 ''Short link not found'', w')
      | (Inr (Some l), w') \<Rightarrow>
          if expired l (clock w') then (Response 410 ''This short link has expired.'', w')
          else (finish (url l),
                after (Miss_task code (url l) (cache_ttl (expiresAt l) (clock w')) (link_id l)) w'))"

definition GET :: "string \<Rightarrow> world \<Rightarrow> response \<times> world" where
  "GET code w =
     (if code = [] then (Response 404 ''Not Found'', w)
      else (case redis_get (cache_key code) w of
              (Inl e, w') \<Rightarrow> (Response 500 ''Internal Server Error'', w')
            | (Inr None, w') \<Rightarrow> cache_miss code w'
            | (Inr (Some cachedUrl), w') \<Rightarrow>
                if cachedUrl \<noteq> [] then (finish cachedUrl, after (Hit_task code) w')
                else cache_miss code w'))"

text \<open>
  Running a callback registered with \<open>after\<close>. Each body is one \<open>try\<close> block whose
  \<open>catch\<close> logs and returns, so an exception ends the callback where it was thrown.
\<close>

fun run_task :: "task \<Rightarrow> world \<Rightarrow> world" where
  "run_task (Hit_task code) w = snd (update (by_code code) (Update_by_code code) w)"
| "run_task (Miss_task code u ttl i) w =
     (case redis_set (cache_key code) u ttl w of
        (Inl e, w') \<Rightarrow> w'
      | (Inr ok, w') \<Rightarrow> snd (update (by_id i) (Update_by_id i) w'))"

section \<open>Histories\<close>

text \<open>
  What can happen to a world: a creation request, a redirect request, a listing request,
  one of the pending callbacks running, and time passing.
\<close>

datatype event =
    Creation "string option"
  | Visit string
  | Listing
  | Background nat
  | Elapse nat

fun step :: "event \<Rightarrow> world \<Rightarrow> world" where
  "step (Creation field) w = snd (createShortLink field w)"
| "step (Visit code) w = snd (GET code w)"
| "step Listing w = snd (api_links_GET w)"
| "step (Background n) w =
     (if n < length (pending w)
      then run_task (pending w ! n) (w\<lparr>pending := take n (pending w) @ drop (Suc n) (pending w)\<rparr>)
      else w)"
| "step (Elapse d) w = w\<lparr>clock := clock w + int d, store_clock := store_clock w + int d\<rparr>"

fun run :: "event list \<Rightarrow> world \<Rightarrow> world" where
  "run [] w = w"
| "run (e # es) w = run es (step e w)"

section \<open>The code generator\<close>

text \<open>
  Modelled from the spec: the alphabet of \<open>generateShortCode\<close> (\<open>lib/utils.ts\<close>, which is
  not among the sources), given by the spec as \<open>[A-Za-z0-9]\<close>.
\<close>

definition alphabet :: string where
  "alphabet = ''ABCDEFGHIJKLMNOPQRSTUVWXYZabcdefghijklmnopqrstuvwxyz0123456789''"

text \<open>
  Modelled from the spec: \<open>generateShortCode\<close> of \<open>lib/utils.ts\<close>, which is not among the
  sources. The spec has it return a string of the configured length (6) drawn from the
  configured alphabet with a pseudo-random source. \<open>random\<close> is that source as a
  sequence of draws; the \<open>n\<close>-th call uses six of them, each reduced to an index into
  the alphabet.
\<close>

definition generateShortCode :: "(nat \<Rightarrow> nat) \<Rightarrow> nat \<Rightarrow> string" where
  "generateShortCode random n =
     map (\<lambda>j. alphabet ! (random (6 * n + j) mod length alphabet)) [0..<6]"

section \<open>Comparing two states of the table\<close>

text \<open>
  Every record of the old table is still in the new one, at its place, with its id and
  its code, and with at least as many clicks.
\<close>

fun no_click_lost :: "Link list \<Rightarrow> Link list \<Rightarrow> bool" where
  "no_click_lost [] new = True"
| "no_click_lost (a # old) [] = False"
| "no_click_lost (a # old) (b # new) =
     (link_id b = link_id a \<and> shortCode b = shortCode a \<and> clicks a \<le> clicks b \<and>
      no_click_lost old new)"

section \<open>Worlds used as concrete instances\<close>

text \<open>
  A stand-in for the URL parser in the worlds below: the scheme is what precedes the
  first colon, and a string without a colon does not parse.
\<close>

definition scheme_before_colon :: "string \<Rightarrow> string option" where
  "scheme_before_colon u =
     (if CHR '':'' \<in> set u then Some (takeWhile (\<lambda>c. c \<noteq> CHR '':'') u) else None)"

text \<open>A server running on UTC.\<close>

definition utc_zone :: "int \<Rightarrow> bool \<Rightarrow> int" where
  "utc_zone t isUTC = 0"

text \<open>
  A server five hours behind UTC whose clocks go forward one hour at the UTC instant
  100000000, that is at local time 82000000.
\<close>

definition dst_zone :: "int \<Rightarrow> bool \<Rightarrow> int" where
  "dst_zone t isUTC =
     (if isUTC then (if t < 100000000 then - 18000000 else - 14400000)
      else (if t < 82000000 then - 18000000 else - 14400000))"

text \<open>One stored link, three clicks so far, and a store whose every call throws.\<close>

definition db_down :: world where
  "db_down =
     \<lparr>links = [\<lparr>link_id = 0, url = ''https://example.com/a/b/c'', shortCode = ''AbC123'',
                 createdAt = 1000, expiresAt = Some 604801000, clicks = 3\<rparr>],
      cache = Map.empty, clock = 2000, store_clock = 2000, LocalTZA = utc_zone, next_id = 1,
      gen = (\<lambda>n. ''XyZ789''), gen_calls = 0,
      parse_scheme = scheme_before_colon, faults = (\<lambda>n. True),
      calls = [], pending = []\<rparr>"

text \<open>The same link with a store that works and a cache whose first call throws.\<close>

definition cache_down :: world where
  "cache_down =
     \<lparr>links = [\<lparr>link_id = 0, url = ''https://example.com/a/b/c'', shortCode = ''AbC123'',
                 createdAt = 1000, expiresAt = Some 604801000, clicks = 3\<rparr>],
      cache = Map.empty, clock = 2000, store_clock = 2000, LocalTZA = utc_zone, next_id = 1,
      gen = (\<lambda>n. ''XyZ789''), gen_calls = 0,
      parse_scheme = scheme_before_colon, faults = (\<lambda>n. n = 0),
      calls = [], pending = []\<rparr>"

text \<open>The link of \<open>prisma/seed.ts\<close>, expired since yesterday; nothing fails.\<close>

definition seeded :: world where
  "seeded =
     \<lparr>links = [\<lparr>link_id = 0, url = ''https://example.com/expired-test'', shortCode = ''exp123'',
                 createdAt = 0, expiresAt = Some 13600000, clicks = 0\<rparr>],
      cache = Map.empty, clock = 100000000, store_clock = 100000000, LocalTZA = utc_zone, next_id = 1,
      gen = (\<lambda>n. ''XyZ789''), gen_calls = 0,
      parse_scheme = scheme_before_colon, faults = (\<lambda>n. False),
      calls = [], pending = []\<rparr>"

text \<open>A link with half a second left to live, and an empty cache; nothing fails.\<close>

definition boundary :: world where
  "boundary =
     \<lparr>links = [\<lparr>link_id = 0, url = ''https://example.com/soon'', shortCode = ''soon01'',
                 createdAt = 0, expiresAt = Some 1500, clicks = 0\<rparr>],
      cache = Map.empty, clock = 1000, store_clock = 1000, LocalTZA = utc_zone, next_id = 1,
      gen = (\<lambda>n. ''XyZ789''), gen_calls = 0,
      parse_scheme = scheme_before_colon, faults = (\<lambda>n. False),
      calls = [], pending = []\<rparr>"

text \<open>
  \<open>boundary\<close> after one redirect, its callback, and 700 ms: the link has expired, the
  cache entry the callback wrote has not.
\<close>

definition late :: world where
  "late = run [Visit ''soon01'', Background 0, Elapse 700] boundary"

text \<open>
  An empty table and a generator that yields \<open>AbC123\<close>, \<open>AbC123\<close>, then \<open>XyZ789\<close>;
  nothing fails.
\<close>

definition racing :: world where
  "racing =
     \<lparr>links = [], cache = Map.empty, clock = 1000, store_clock = 1000, LocalTZA = utc_zone, next_id = 0,
      gen = (\<lambda>n. if n < 2 then ''AbC123'' else ''XyZ789''), gen_calls = 0,
      parse_scheme = scheme_before_colon, faults = (\<lambda>n. False),
      calls = [], pending = []\<rparr>"

text \<open>
  Two creation requests interleaved at their \<open>await\<close>s: both have run the retry loop
  (\<open>both_checked\<close>), then the first one has inserted (\<open>first_inserted\<close>).
\<close>

definition both_checked :: world where
  "both_checked = snd (retry_loop 5 (snd (retry_loop 5 racing)))"

definition first_inserted :: world where
  "first_inserted = snd (insert_link ''https://example.com/first'' ''AbC123'' both_checked)"

text \<open>\<open>racing\<close> after one creation: \<open>AbC123\<close> is taken, the generator yields it once more.\<close>

definition one_stored :: world where
  "one_stored = snd (createShortLink (Some ''https://example.com/a/b/c'') racing)"

text \<open>An empty table and the generator of the spec over some sequence of draws.\<close>

definition drawing :: world where
  "drawing =
     \<lparr>links = [], cache = Map.empty, clock = 1000, store_clock = 1000, LocalTZA = utc_zone, next_id = 0,
      gen = generateShortCode (\<lambda>n. 7 * n + 3), gen_calls = 0,
      parse_scheme = scheme_before_colon, faults = (\<lambda>n. False),
      calls = [], pending = []\<rparr>"

text \<open>
  An empty table on the server of \<open>dst_zone\<close>, a day before its clocks go forward; the
  store's clock is 40 ms ahead of the application's.
\<close>

definition spring_forward :: world where
  "spring_forward =
     \<lparr>links = [], cache = Map.empty, clock = 13600000, store_clock = 13600040,
      LocalTZA = dst_zone, next_id = 0,
      gen = generateShortCode (\<lambda>n. 7 * n + 3), gen_calls = 0,
      parse_scheme = scheme_before_colon, faults = (\<lambda>n. False),
      calls = [], pending = []\<rparr>"

text \<open>A link with ten seconds left to live, and an empty cache; nothing fails.\<close>

definition ten_seconds :: world where
  "ten_seconds =
     \<lparr>links = [\<lparr>link_id = 0, url = ''https://example.com/ten'', shortCode = ''ten001'',
                 createdAt = 0, expiresAt = Some 11000, clicks = 0\<rparr>],
      cache = Map.empty, clock = 1000, store_clock = 1000, LocalTZA = utc_zone, next_id = 1,
      gen = (\<lambda>n. ''XyZ789''), gen_calls = 0,
      parse_scheme = scheme_before_colon, faults = (\<lambda>n. False),
      calls = [], pending = []\<rparr>"

text \<open>
  \<open>ten_seconds\<close> after one redirect whose callback ran five seconds late, and six
  seconds more: the link has expired, the cache entry has not.
\<close>

definition overdue :: world where
  "overdue = run [Visit ''ten001'', Elapse 5000, Background 0, Elapse 6000] ten_seconds"

section \<open>The listing query\<close>

text \<open>
  Claim C9. When the store call of the recent-links query throws, \<open>getRecentLinks\<close>
  returns the empty list instead of propagating the exception; the listing entry point
  then answers with \<open>{ links: [] }\<close>, never with its 500 response, and the answer is the
  one a working store with no links at all would give.
\<close>

theorem recent_links_failure_is_empty:
  assumes "call_fails w"
  shows "fst (getRecentLinks w) = Inr [] \<and>
         fst (api_links_GET w) = Json_links [] \<and>
         fst (api_links_GET w) \<noteq> Json_error m n \<and>
         fst (api_links_GET w) = fst (api_links_GET (w\<lparr>links := [], faults := (\<lambda>n. False)\<rparr>))"
  using assms
  by (simp add: getRecentLinks_def api_links_GET_def findMany_def call_fails_def)

theorem recent_links_failure_is_empty_witness:
  "call_fails db_down \<and> links db_down \<noteq> [] \<and>
   fst (getRecentLinks db_down) = Inr [] \<and>
   fst (api_links_GET db_down) = Json_links [] \<and>
   fst (api_links_GET db_down) \<noteq> Json_error ''Failed to fetch top links'' 500"
proof -
  have h: "call_fails db_down" by (simp add: call_fails_def db_down_def)
  have n: "links db_down \<noteq> []" by (simp add: db_down_def)
  show ?thesis
    using h n recent_links_failure_is_empty [OF h, of "''Failed to fetch top links''" 500]
    by simp
qed

section \<open>Effects of the basic operations\<close>

lemma logged_simps:
  "calls (logged c w) = calls w @ [c]"
  "links (logged c w) = links w"
  "pending (logged c w) = pending w"
  "cache (logged c w) = cache w"
  "clock (logged c w) = clock w"
  "faults (logged c w) = faults w"
  "gen (logged c w) = gen w"
  "gen_calls (logged c w) = gen_calls w"
  "next_id (logged c w) = next_id w"
  "parse_scheme (logged c w) = parse_scheme w"
  "store_clock (logged c w) = store_clock w"
  "LocalTZA (logged c w) = LocalTZA w"
  by (simp_all add: logged_def)

lemma call_fails_logged: "call_fails (logged c w) = faults w (Suc (length (calls w)))"
  by (simp add: call_fails_def logged_def)

lemma after_simps:
  "calls (after t w) = calls w"
  "links (after t w) = links w"
  "pending (after t w) = pending w @ [t]"
  "cache (after t w) = cache w"
  "clock (after t w) = clock w"
  by (simp_all add: after_def)

lemmas eval_defs =
  GET_def redis_get_def redis_set_def live_entry_def cache_miss_def cache_key_def missed_def
  findUnique_def update_def by_code_def by_id_def expired_def finish_def logged_def
  after_def call_fails_def cache_ttl_def

lemmas create_defs =
  createShortLink_def insert_link_def create_def findUnique_def taken_def by_code_def
  call_fails_def logged_def failure_def isValidUrl_def url_length_bound_def
  scheme_before_colon_def setDate_plus_def LocalTime_def UTC_def msPerDay_def utc_zone_def

section \<open>The redirect handler, branch by branch\<close>

lemma GET_cache_throws:
  "code \<noteq> [] \<Longrightarrow> call_fails w \<Longrightarrow>
   GET code w = (Response 500 ''Internal Server Error'', logged (Redis_get (cache_key code)) w)"
  by (simp add: GET_def redis_get_def)

lemma GET_hit:
  "code \<noteq> [] \<Longrightarrow> \<not> call_fails w \<Longrightarrow> live_entry w (cache_key code) = Some v \<Longrightarrow> v \<noteq> [] \<Longrightarrow>
   GET code w = (Redirect v, after (Hit_task code) (logged (Redis_get (cache_key code)) w))"
  by (simp add: GET_def redis_get_def finish_def)

lemma GET_miss:
  "code \<noteq> [] \<Longrightarrow> \<not> call_fails w \<Longrightarrow> missed w code \<Longrightarrow>
   GET code w = cache_miss code (logged (Redis_get (cache_key code)) w)"
  by (auto simp add: GET_def redis_get_def missed_def split: option.splits)

lemma cache_miss_expired:
  "\<not> call_fails w \<Longrightarrow> find (by_code code) (links w) = Some l \<Longrightarrow> expired l (clock w) \<Longrightarrow>
   cache_miss code w = (Response 410 ''This short link has expired.'', logged (Find_unique code) w)"
  by (simp add: cache_miss_def findUnique_def logged_simps)

lemma cache_miss_valid:
  "\<not> call_fails w \<Longrightarrow> find (by_code code) (links w) = Some l \<Longrightarrow> \<not> expired l (clock w) \<Longrightarrow>
   cache_miss code w =
     (finish (url l),
      after (Miss_task code (url l) (cache_ttl (expiresAt l) (clock w)) (link_id l))
        (logged (Find_unique code) w))"
  by (simp add: cache_miss_def findUnique_def logged_simps)

lemma cache_miss_500:
  "fst (cache_miss code w) = Response 500 body \<longleftrightarrow> body = ''Internal Server Error'' \<and> call_fails w"
  by (auto simp add: cache_miss_def findUnique_def finish_def split: option.splits)

lemma GET_miss_valid:
  assumes "code \<noteq> []" "\<not> call_fails w" "\<not> faults w (Suc (length (calls w)))" "missed w code"
    "find (by_code code) (links w) = Some l" "\<not> expired l (clock w)"
  shows "GET code w =
     (finish (url l),
      after (Miss_task code (url l) (cache_ttl (expiresAt l) (clock w)) (link_id l))
        (logged (Find_unique code) (logged (Redis_get (cache_key code)) w)))"
  using assms by (simp add: GET_miss cache_miss_valid call_fails_logged logged_simps)

lemma GET_links: "links (snd (GET code w)) = links w"
  by (auto simp add: GET_def redis_get_def cache_miss_def findUnique_def logged_def after_def
      split: option.splits)

lemma GET_refusal_schedules_nothing:
  "fst (GET code w) = Response n b \<Longrightarrow> pending (snd (GET code w)) = pending w"
  by (auto simp add: GET_def redis_get_def cache_miss_def findUnique_def logged_def after_def
      finish_def split: option.splits if_splits)

section \<open>The callbacks\<close>

lemma run_miss_task_set_throws:
  "call_fails w \<Longrightarrow>
   run_task (Miss_task code u ttl i) w = logged (Redis_set (cache_key code) u ttl) w"
  by (simp add: redis_set_def)

lemma run_miss_task_calls:
  "calls (run_task (Miss_task code u ttl i) w) =
     calls w @ (if call_fails w then [Redis_set (cache_key code) u ttl]
                else [Redis_set (cache_key code) u ttl, Update_by_id i])"
  by (simp add: redis_set_def update_def logged_def)

lemma run_miss_task_cache:
  "\<not> call_fails w \<Longrightarrow>
   cache (run_task (Miss_task code u ttl i) w) (cache_key code) = Some (u, clock w + ttl * 1000)"
  by (simp add: redis_set_def update_def logged_def)

lemma run_hit_task_calls:
  "calls (run_task (Hit_task code) w) = calls w @ [Update_by_code code]"
  by (simp add: update_def logged_def)

section \<open>Cache failures\<close>

text \<open>
  Claim C3 says that a failing cache lookup is treated as a miss. It is not: the handler
  has one \<open>try\<close> block, and \<open>redis.get\<close> is inside it. In \<open>cache_down\<close> the cache lookup
  throws and the store would answer; the request gets 500 and the store is never asked,
  whereas a miss at the same point would have redirected.
\<close>

theorem cache_failure_counterexample:
  "call_fails cache_down \<and> \<not> faults cache_down 1 \<and>
   fst (GET ''AbC123'' cache_down) = Response 500 ''Internal Server Error'' \<and>
   calls (snd (GET ''AbC123'' cache_down)) = [Redis_get ''link:AbC123''] \<and>
   fst (cache_miss ''AbC123'' (logged (Redis_get ''link:AbC123'') cache_down)) =
     Redirect ''https://example.com/a/b/c''"
  by (simp add: cache_down_def eval_defs)

text \<open>
  Claim C3, as amended. A failure of the cache lookup ends the request with the
  internal-error response, the store not having been consulted. The handler answers 500
  in exactly two cases: the cache lookup throws, or the cache gives nothing usable and
  the store lookup throws.
\<close>

theorem internal_error_causes:
  "(code \<noteq> [] \<and> call_fails w \<longrightarrow>
      GET code w = (Response 500 ''Internal Server Error'', logged (Redis_get (cache_key code)) w)) \<and>
   (fst (GET code w) = Response 500 body \<longleftrightarrow>
      code \<noteq> [] \<and> body = ''Internal Server Error'' \<and>
      (call_fails w \<or> (missed w code \<and> faults w (Suc (length (calls w))))))"
proof (intro conjI impI)
  assume "code \<noteq> [] \<and> call_fails w"
  then show "GET code w =
      (Response 500 ''Internal Server Error'', logged (Redis_get (cache_key code)) w)"
    by (simp add: GET_cache_throws)
next
  show "fst (GET code w) = Response 500 body \<longleftrightarrow>
      code \<noteq> [] \<and> body = ''Internal Server Error'' \<and>
      (call_fails w \<or> (missed w code \<and> faults w (Suc (length (calls w)))))"
  proof (cases "code = []")
    case True
    then show ?thesis by (simp add: GET_def)
  next
    case ne: False
    show ?thesis
    proof (cases "call_fails w")
      case True
      with ne show ?thesis by (auto simp add: GET_cache_throws)
    next
      case up: False
      show ?thesis
      proof (cases "missed w code")
        case True
        with ne up show ?thesis
          by (auto simp add: GET_miss cache_miss_500 call_fails_logged)
      next
        case False
        then obtain v where "live_entry w (cache_key code) = Some v" "v \<noteq> []"
          by (auto simp add: missed_def split: option.splits)
        with ne up False show ?thesis
          by (simp add: GET_hit)
      qed
    qed
  qed
qed

theorem internal_error_causes_witness:
  "''AbC123'' \<noteq> [] \<and> call_fails cache_down \<and>
   GET ''AbC123'' cache_down =
     (Response 500 ''Internal Server Error'', logged (Redis_get (cache_key ''AbC123'')) cache_down) \<and>
   calls (snd (GET ''AbC123'' cache_down)) = [Redis_get ''link:AbC123'']"
proof -
  have h: "''AbC123'' \<noteq> [] \<and> call_fails cache_down"
    by (simp add: cache_down_def call_fails_def)
  have c: "calls cache_down = []" by (simp add: cache_down_def)
  from internal_error_causes [of "''AbC123''" cache_down "''Internal Server Error''"] h
  have "GET ''AbC123'' cache_down =
     (Response 500 ''Internal Server Error'', logged (Redis_get (cache_key ''AbC123'')) cache_down)"
    by blast
  with h c show ?thesis by (simp add: logged_simps cache_key_def)
qed

section \<open>Expiry\<close>

text \<open>
  Claim C2 says that an expired link is answered 410 even while a cache entry for its
  code exists. The cache-hit branch never looks at \<open>expiresAt\<close>. In \<open>late\<close> the link
  \<open>soon01\<close> expired 200 ms ago and the entry written by the earlier redirect is still
  alive: the request is redirected, and its callback counts one more click.
\<close>

theorem expired_hit_counterexample:
  "find (by_code ''soon01'') (links late) =
     Some \<lparr>link_id = 0, url = ''https://example.com/soon'', shortCode = ''soon01'',
           createdAt = 0, expiresAt = Some 1500, clicks = 1\<rparr> \<and>
   clock late = 1700 \<and>
   live_entry late (cache_key ''soon01'') = Some ''https://example.com/soon'' \<and>
   fst (GET ''soon01'' late) = Redirect ''https://example.com/soon'' \<and>
   map clicks (links (run [Visit ''soon01'', Background 0] late)) = [2]"
  by (simp add: late_def boundary_def eval_defs)

text \<open>
  Claim C2, as amended. When the cache gives nothing usable and neither lookup fails, a
  request for a code whose link has \<open>expiresAt\<close> in the past is answered 410. When the
  cache holds a live entry for the code, the request is redirected to the cached URL
  and an increment is scheduled, whatever the link's \<open>expiresAt\<close>: the cache lookup is
  the only call the handler makes, the store is not consulted. A request answered 404
  or 410 changes no record and schedules no callback, so no click is counted for it.
\<close>

theorem expired_is_gone_on_miss:
  "(code \<noteq> [] \<and> \<not> call_fails w \<and> \<not> faults w (Suc (length (calls w))) \<and> missed w code \<and>
    find (by_code code) (links w) = Some l \<and> expired l (clock w)
      \<longrightarrow> GET code w =
            (Response 410 ''This short link has expired.'',
             logged (Find_unique code) (logged (Redis_get (cache_key code)) w))) \<and>
   (code \<noteq> [] \<and> \<not> call_fails w \<and> live_entry w (cache_key code) = Some v \<and> v \<noteq> []
      \<longrightarrow> GET code w =
            (Redirect v, after (Hit_task code) (logged (Redis_get (cache_key code)) w)) \<and>
          calls (snd (GET code w)) = calls w @ [Redis_get (cache_key code)] \<and>
          pending (snd (GET code w)) = pending w @ [Hit_task code]) \<and>
   (fst (GET code w) = Response 404 b \<or> fst (GET code w) = Response 410 b
      \<longrightarrow> links (snd (GET code w)) = links w \<and> pending (snd (GET code w)) = pending w)"
proof (intro conjI impI)
  assume "code \<noteq> [] \<and> \<not> call_fails w \<and> \<not> faults w (Suc (length (calls w))) \<and>
    missed w code \<and> find (by_code code) (links w) = Some l \<and> expired l (clock w)"
  then show "GET code w =
      (Response 410 ''This short link has expired.'',
       logged (Find_unique code) (logged (Redis_get (cache_key code)) w))"
    by (simp add: GET_miss cache_miss_expired call_fails_logged logged_simps)
next
  assume h: "code \<noteq> [] \<and> \<not> call_fails w \<and> live_entry w (cache_key code) = Some v \<and> v \<noteq> []"
  then show g: "GET code w =
      (Redirect v, after (Hit_task code) (logged (Redis_get (cache_key code)) w))"
    by (simp add: GET_hit)
  show "calls (snd (GET code w)) = calls w @ [Redis_get (cache_key code)]"
    by (simp add: g after_simps logged_simps)
  show "pending (snd (GET code w)) = pending w @ [Hit_task code]"
    by (simp add: g after_simps logged_simps)
next
  assume "fst (GET code w) = Response 404 b \<or> fst (GET code w) = Response 410 b"
  then show "links (snd (GET code w)) = links w" "pending (snd (GET code w)) = pending w"
    by (auto simp add: GET_links GET_refusal_schedules_nothing)
qed

theorem expired_is_gone_on_miss_witness:
  "find (by_code ''exp123'') (links seeded) =
     Some \<lparr>link_id = 0, url = ''https://example.com/expired-test'', shortCode = ''exp123'',
           createdAt = 0, expiresAt = Some 13600000, clicks = 0\<rparr> \<and>
   clock seeded = 100000000 \<and> missed seeded ''exp123'' \<and>
   fst (GET ''exp123'' seeded) = Response 410 ''This short link has expired.'' \<and>
   calls (snd (GET ''exp123'' seeded)) =
     [Redis_get (cache_key ''exp123''), Find_unique ''exp123''] \<and>
   links (snd (GET ''exp123'' seeded)) = links seeded \<and>
   pending (snd (GET ''exp123'' seeded)) = pending seeded \<and>
   live_entry late (cache_key ''soon01'') = Some ''https://example.com/soon'' \<and>
   fst (GET ''soon01'' late) = Redirect ''https://example.com/soon'' \<and>
   calls (snd (GET ''soon01'' late)) = calls late @ [Redis_get (cache_key ''soon01'')] \<and>
   pending (snd (GET ''soon01'' late)) = [Hit_task ''soon01'']"
proof -
  let ?l = "\<lparr>link_id = 0, url = ''https://example.com/expired-test'', shortCode = ''exp123'',
             createdAt = 0, expiresAt = Some 13600000, clicks = 0\<rparr>"
  have f: "find (by_code ''exp123'') (links seeded) = Some ?l" "clock seeded = 100000000"
    "calls seeded = []"
    by (simp_all add: seeded_def by_code_def)
  have h: "''exp123'' \<noteq> [] \<and> \<not> call_fails seeded \<and>
      \<not> faults seeded (Suc (length (calls seeded))) \<and> missed seeded ''exp123'' \<and>
      find (by_code ''exp123'') (links seeded) = Some ?l \<and> expired ?l (clock seeded)"
    by (simp add: seeded_def call_fails_def missed_def live_entry_def cache_key_def
          by_code_def expired_def)
  have g: "''soon01'' \<noteq> [] \<and> \<not> call_fails late \<and>
      live_entry late (cache_key ''soon01'') = Some ''https://example.com/soon'' \<and>
      ''https://example.com/soon'' \<noteq> []"
    by (simp add: late_def boundary_def eval_defs)
  have p: "pending late = []"
    by (simp add: late_def boundary_def eval_defs)
  from expired_is_gone_on_miss
         [of "''exp123''" seeded ?l _ "''This short link has expired.''"] h
  have a: "GET ''exp123'' seeded =
        (Response 410 ''This short link has expired.'',
         logged (Find_unique ''exp123'') (logged (Redis_get (cache_key ''exp123'')) seeded)) \<and>
      links (snd (GET ''exp123'' seeded)) = links seeded \<and>
      pending (snd (GET ''exp123'' seeded)) = pending seeded"
    by (simp add: logged_simps)
  from expired_is_gone_on_miss [of "''soon01''" late _ "''https://example.com/soon''"] g
  have b: "fst (GET ''soon01'' late) = Redirect ''https://example.com/soon'' \<and>
      calls (snd (GET ''soon01'' late)) = calls late @ [Redis_get (cache_key ''soon01'')] \<and>
      pending (snd (GET ''soon01'' late)) = pending late @ [Hit_task ''soon01'']"
    by (simp add: after_simps logged_simps)
  from f h g p a b show ?thesis by (simp add: logged_simps)
qed

section \<open>Cache population\<close>

lemma cache_ttl_clamped:
  "now \<le> e \<Longrightarrow> cache_ttl (Some e) now * 1000 \<le> e - now + 1000"
proof -
  assume h: "now \<le> e"
  show ?thesis
  proof (cases "1 \<le> (e - now) div 1000")
    case True
    then have "cache_ttl (Some e) now = (e - now) div 1000" by (simp add: cache_ttl_def)
    moreover have "(e - now) div 1000 * 1000 \<le> e - now" by simp
    ultimately show ?thesis by simp
  next
    case False
    then have "cache_ttl (Some e) now = 1" by (simp add: cache_ttl_def)
    with h show ?thesis by simp
  qed
qed

lemma cache_ttl_within:
  "1000 \<le> e - now \<Longrightarrow> cache_ttl (Some e) now * 1000 \<le> e - now"
proof -
  assume h: "1000 \<le> e - now"
  then have "1 \<le> (e - now) div 1000" by simp
  then have "cache_ttl (Some e) now = (e - now) div 1000" by (simp add: cache_ttl_def)
  moreover have "(e - now) div 1000 * 1000 \<le> e - now" by simp
  ultimately show ?thesis by simp
qed

text \<open>
  Claim C6 says that the TTL keeps the cache entry from outliving the link. Two things
  break that. The \<open>max(1, ...)\<close> clamp: in \<open>boundary\<close> the link has 500 ms left, the TTL
  is one second, and the entry written at once lives until 2000, past the link's 1500.
  And the deferred write: in \<open>ten_seconds\<close> the link has ten seconds left, the TTL is
  ten seconds, the callback runs five seconds late, and its entry lives until 16000,
  past the link's 11000; in \<open>overdue\<close> the expired link is redirected from the cache.
\<close>

theorem cache_ttl_counterexample:
  "find (by_code ''soon01'') (links boundary) =
     Some \<lparr>link_id = 0, url = ''https://example.com/soon'', shortCode = ''soon01'',
           createdAt = 0, expiresAt = Some 1500, clicks = 0\<rparr> \<and>
   clock boundary = 1000 \<and>
   pending (snd (GET ''soon01'' boundary)) =
     [Miss_task ''soon01'' ''https://example.com/soon'' 1 0] \<and>
   cache (run [Visit ''soon01'', Background 0] boundary) (cache_key ''soon01'') =
     Some (''https://example.com/soon'', 2000) \<and>
   (1500 :: int) < 2000 \<and>
   pending (snd (GET ''ten001'' ten_seconds)) =
     [Miss_task ''ten001'' ''https://example.com/ten'' 10 0] \<and>
   cache (run [Visit ''ten001'', Elapse 5000, Background 0] ten_seconds) (cache_key ''ten001'') =
     Some (''https://example.com/ten'', 16000) \<and>
   (11000 :: int) < 16000 \<and>
   clock overdue = 12000 \<and>
   map expiresAt (links overdue) = [Some 11000] \<and>
   live_entry overdue (cache_key ''ten001'') = Some ''https://example.com/ten'' \<and>
   fst (GET ''ten001'' overdue) = Redirect ''https://example.com/ten''"
  by (simp add: boundary_def ten_seconds_def overdue_def eval_defs)

text \<open>
  Claim C6, as amended. After a store hit on a link that has not expired, the handler
  schedules the cache write with a TTL of \<open>max(1, floor((expiresAt - now) / 1000))\<close>
  seconds, \<open>now\<close> being the time the request is handled, or 604800 seconds when the
  link has no \<open>expiresAt\<close>. The callback stores the link's URL under the code's key
  with that TTL counted from the moment of the write. The entry can therefore outlive
  the link, but by no more than the delay between the request and the write when at
  least a full second remained, and by no more than that delay plus one second otherwise.
\<close>

theorem cache_population_ttl:
  "(code \<noteq> [] \<and> \<not> call_fails w \<and> \<not> faults w (Suc (length (calls w))) \<and> missed w code \<and>
    find (by_code code) (links w) = Some l \<and> \<not> expired l (clock w) \<longrightarrow>
      pending (snd (GET code w)) =
        pending w @ [Miss_task code (url l) (cache_ttl (expiresAt l) (clock w)) (link_id l)] \<and>
      (\<not> call_fails w' \<longrightarrow>
         cache (run_task (Miss_task code (url l) (cache_ttl (expiresAt l) (clock w)) (link_id l)) w')
           (cache_key code) =
           Some (url l, clock w' + cache_ttl (expiresAt l) (clock w) * 1000)) \<and>
      (expiresAt l = Some e \<longrightarrow>
         clock w' + cache_ttl (expiresAt l) (clock w) * 1000 \<le> e + (clock w' - clock w) + 1000 \<and>
         (1000 \<le> e - clock w \<longrightarrow>
            clock w' + cache_ttl (expiresAt l) (clock w) * 1000 \<le> e + (clock w' - clock w)))) \<and>
   cache_ttl None now = 604800 \<and>
   cache_ttl (Some e') now = max 1 ((e' - now) div 1000)"
proof (intro conjI impI)
  assume h: "code \<noteq> [] \<and> \<not> call_fails w \<and> \<not> faults w (Suc (length (calls w))) \<and>
    missed w code \<and> find (by_code code) (links w) = Some l \<and> \<not> expired l (clock w)"
  then show "pending (snd (GET code w)) =
      pending w @ [Miss_task code (url l) (cache_ttl (expiresAt l) (clock w)) (link_id l)]"
    by (simp add: GET_miss_valid after_simps logged_simps)
  {
    assume "\<not> call_fails w'"
    then show "cache (run_task (Miss_task code (url l) (cache_ttl (expiresAt l) (clock w)) (link_id l)) w')
        (cache_key code) = Some (url l, clock w' + cache_ttl (expiresAt l) (clock w) * 1000)"
      by (rule run_miss_task_cache)
  }
  {
    assume e: "expiresAt l = Some e"
    with h have "clock w \<le> e" by (simp add: expired_def)
    from cache_ttl_clamped [OF this] e
    show "clock w' + cache_ttl (expiresAt l) (clock w) * 1000 \<le> e + (clock w' - clock w) + 1000"
      by simp
    {
      assume "1000 \<le> e - clock w"
      from cache_ttl_within [OF this] e
      show "clock w' + cache_ttl (expiresAt l) (clock w) * 1000 \<le> e + (clock w' - clock w)"
        by simp
    }
  }
next
  show "cache_ttl None now = 604800" by (simp add: cache_ttl_def)
next
  show "cache_ttl (Some e') now = max 1 ((e' - now) div 1000)" by (simp add: cache_ttl_def)
qed

theorem cache_population_ttl_witness:
  "pending (snd (GET ''ten001'' ten_seconds)) =
     [Miss_task ''ten001'' ''https://example.com/ten'' 10 0] \<and>
   clock (step (Elapse 5000) (snd (GET ''ten001'' ten_seconds))) = 6000 \<and>
   cache (run_task (Miss_task ''ten001'' ''https://example.com/ten'' 10 0)
            (step (Elapse 5000) (snd (GET ''ten001'' ten_seconds))))
     (cache_key ''ten001'') = Some (''https://example.com/ten'', 16000) \<and>
   (16000 :: int) \<le> 11000 + (6000 - 1000) \<and>
   pending (snd (GET ''soon01'' boundary)) =
     [Miss_task ''soon01'' ''https://example.com/soon'' 1 0] \<and>
   cache (run_task (Miss_task ''soon01'' ''https://example.com/soon'' 1 0) boundary)
     (cache_key ''soon01'') = Some (''https://example.com/soon'', 2000) \<and>
   (2000 :: int) \<le> 1500 + (1000 - 1000) + 1000"
proof -
  let ?t = "\<lparr>link_id = 0, url = ''https://example.com/ten'', shortCode = ''ten001'',
             createdAt = 0, expiresAt = Some 11000, clicks = 0\<rparr>"
  let ?s = "\<lparr>link_id = 0, url = ''https://example.com/soon'', shortCode = ''soon01'',
             createdAt = 0, expiresAt = Some 1500, clicks = 0\<rparr>"
  let ?w = "step (Elapse 5000) (snd (GET ''ten001'' ten_seconds))"
  have ht: "''ten001'' \<noteq> [] \<and> \<not> call_fails ten_seconds \<and>
      \<not> faults ten_seconds (Suc (length (calls ten_seconds))) \<and> missed ten_seconds ''ten001'' \<and>
      find (by_code ''ten001'') (links ten_seconds) = Some ?t \<and> \<not> expired ?t (clock ten_seconds)"
    by (simp add: ten_seconds_def call_fails_def missed_def live_entry_def by_code_def
          expired_def)
  have hs: "''soon01'' \<noteq> [] \<and> \<not> call_fails boundary \<and>
      \<not> faults boundary (Suc (length (calls boundary))) \<and> missed boundary ''soon01'' \<and>
      find (by_code ''soon01'') (links boundary) = Some ?s \<and> \<not> expired ?s (clock boundary)"
    by (simp add: boundary_def call_fails_def missed_def live_entry_def by_code_def expired_def)
  have vt: "pending ten_seconds = []" "clock ten_seconds = 1000" "clock ?w = 6000"
    "\<not> call_fails ?w" "expiresAt ?t = Some 11000" "(1000::int) \<le> 11000 - clock ten_seconds"
    by (simp_all add: ten_seconds_def eval_defs)
  have vs: "pending boundary = []" "clock boundary = 1000" "\<not> call_fails boundary"
    "expiresAt ?s = Some 1500"
    by (simp_all add: boundary_def call_fails_def)
  have ttl: "cache_ttl (Some 11000) 1000 = 10" "cache_ttl (Some 1500) 1000 = 1"
    by (simp_all add: cache_ttl_def)
  from cache_population_ttl [of "''ten001''" ten_seconds ?t ?w 11000] ht vt
  have a: "pending (snd (GET ''ten001'' ten_seconds)) =
        pending ten_seconds @
          [Miss_task ''ten001'' (url ?t) (cache_ttl (expiresAt ?t) (clock ten_seconds)) (link_id ?t)] \<and>
      cache (run_task (Miss_task ''ten001'' (url ?t) (cache_ttl (expiresAt ?t) (clock ten_seconds))
                (link_id ?t)) ?w) (cache_key ''ten001'') =
        Some (url ?t, clock ?w + cache_ttl (expiresAt ?t) (clock ten_seconds) * 1000) \<and>
      clock ?w + cache_ttl (expiresAt ?t) (clock ten_seconds) * 1000 \<le>
        11000 + (clock ?w - clock ten_seconds)"
    by blast
  from cache_population_ttl [of "''soon01''" boundary ?s boundary 1500] hs vs
  have b: "pending (snd (GET ''soon01'' boundary)) =
        pending boundary @
          [Miss_task ''soon01'' (url ?s) (cache_ttl (expiresAt ?s) (clock boundary)) (link_id ?s)] \<and>
      cache (run_task (Miss_task ''soon01'' (url ?s) (cache_ttl (expiresAt ?s) (clock boundary))
                (link_id ?s)) boundary) (cache_key ''soon01'') =
        Some (url ?s, clock boundary + cache_ttl (expiresAt ?s) (clock boundary) * 1000) \<and>
      clock boundary + cache_ttl (expiresAt ?s) (clock boundary) * 1000 \<le>
        1500 + (clock boundary - clock boundary) + 1000"
    by blast
  from a b vt vs ttl show ?thesis by (simp del: run_task.simps step.simps)
qed

section \<open>The cache-miss callback\<close>

text \<open>
  Claim C10. On a cache miss that finds a valid link, the handler registers one
  callback. That callback first writes the cache and then increments the counter: when
  the cache write throws, the only call it has made is that write, the store is not
  called and no record changes; otherwise the write is followed by the update.
\<close>

theorem miss_task_is_one_sequential_unit:
  "(code \<noteq> [] \<and> \<not> call_fails w \<and> \<not> faults w (Suc (length (calls w))) \<and> missed w code \<and>
    find (by_code code) (links w) = Some l \<and> \<not> expired l (clock w) \<longrightarrow>
      pending (snd (GET code w)) =
        pending w @ [Miss_task code (url l) (cache_ttl (expiresAt l) (clock w)) (link_id l)]) \<and>
   calls (run_task (Miss_task code u ttl i) w') =
     calls w' @ (if call_fails w' then [Redis_set (cache_key code) u ttl]
                 else [Redis_set (cache_key code) u ttl, Update_by_id i]) \<and>
   (call_fails w' \<longrightarrow> links (run_task (Miss_task code u ttl i) w') = links w')"
  by (simp add: GET_miss_valid after_simps logged_simps run_miss_task_calls
        run_miss_task_set_throws del: run_task.simps)

theorem miss_task_is_one_sequential_unit_witness:
  "pending (snd (GET ''soon01'' boundary)) =
     [Miss_task ''soon01'' ''https://example.com/soon'' 1 0] \<and>
   call_fails db_down \<and>
   calls (run_task (Miss_task ''soon01'' ''https://example.com/soon'' 1 0) db_down) =
     [Redis_set (cache_key ''soon01'') ''https://example.com/soon'' 1] \<and>
   links (run_task (Miss_task ''soon01'' ''https://example.com/soon'' 1 0) db_down) = links db_down"
proof -
  let ?l = "\<lparr>link_id = 0, url = ''https://example.com/soon'', shortCode = ''soon01'',
             createdAt = 0, expiresAt = Some 1500, clicks = 0\<rparr>"
  have h: "''soon01'' \<noteq> [] \<and> \<not> call_fails boundary \<and>
      \<not> faults boundary (Suc (length (calls boundary))) \<and> missed boundary ''soon01'' \<and>
      find (by_code ''soon01'') (links boundary) = Some ?l \<and> \<not> expired ?l (clock boundary)"
    by (simp add: boundary_def call_fails_def missed_def live_entry_def by_code_def expired_def)
  have d: "call_fails db_down" by (simp add: db_down_def call_fails_def)
  have v: "pending boundary = []" "clock boundary = 1000" "calls db_down = []"
    by (simp_all add: boundary_def db_down_def)
  note t = miss_task_is_one_sequential_unit [of "''soon01''" boundary ?l
      "''https://example.com/soon''" 1 0 db_down]
  from t h have p: "pending (snd (GET ''soon01'' boundary)) =
      pending boundary @
        [Miss_task ''soon01'' (url ?l) (cache_ttl (expiresAt ?l) (clock boundary)) (link_id ?l)]"
    by blast
  from t d have c:
    "calls (run_task (Miss_task ''soon01'' ''https://example.com/soon'' 1 0) db_down) =
       calls db_down @ [Redis_set (cache_key ''soon01'') ''https://example.com/soon'' 1] \<and>
     links (run_task (Miss_task ''soon01'' ''https://example.com/soon'' 1 0) db_down) =
       links db_down"
    by simp
  from p c d v show ?thesis by (simp add: cache_ttl_def)
qed

section \<open>Validation\<close>

text \<open>
  Claim C7 says that a rejected request gets \<open>{ success: false, error: m }\<close>. The
  object returned is \<open>{ error: m }\<close>: it has no \<open>success\<close> property at all.
\<close>

theorem invalid_url_counterexample:
  "fst (createShortLink (Some []) seeded) =
     \<lparr>success = None, error = Some ''URL is required'', link = None\<rparr> \<and>
   fst (createShortLink (Some ''javascript:alert(1)'') seeded) =
     \<lparr>success = None, error = Some ''Please enter a valid URL (e.g., https://example.com)'',
      link = None\<rparr> \<and>
   success (fst (createShortLink (Some []) seeded)) \<noteq> Some False \<and>
   success (fst (createShortLink (Some ''javascript:alert(1)'') seeded)) \<noteq> Some False"
  by (simp add: createShortLink_def failure_def seeded_def isValidUrl_def
        scheme_before_colon_def url_length_bound_def)

text \<open>
  Claim C7, as amended. When the \<open>url\<close> field is absent or empty, or the URL does not
  parse as an absolute URL, or its scheme is neither \<open>http\<close> nor \<open>https\<close>, or it is
  longer than the bound, \<open>createShortLink\<close> returns an object \<open>{ error: m }\<close>, which has
  no \<open>success\<close> property, and leaves the world as it was: no call to the store, the
  cache or the generator is made. Every result is either of that form or
  \<open>{ success: true, link: l }\<close> with \<open>l\<close> a record of the table.
\<close>

theorem invalid_url_fails_fast:
  "(field = None \<or> field = Some [] \<or>
    (\<exists>u. field = Some u \<and>
         (parse_scheme w u = None \<or>
          (\<exists>s. parse_scheme w u = Some s \<and> s \<noteq> ''http'' \<and> s \<noteq> ''https'') \<or>
          url_length_bound < length u)) \<longrightarrow>
      (\<exists>m. fst (createShortLink field w) = \<lparr>success = None, error = Some m, link = None\<rparr>) \<and>
      snd (createShortLink field w) = w) \<and>
   ((\<exists>m. fst (createShortLink field w) = \<lparr>success = None, error = Some m, link = None\<rparr>) \<or>
    (\<exists>l. fst (createShortLink field w) = \<lparr>success = Some True, error = None, link = Some l\<rparr> \<and>
         l \<in> set (links (snd (createShortLink field w)))))"
proof (intro conjI impI)
  assume h: "field = None \<or> field = Some [] \<or>
    (\<exists>u. field = Some u \<and>
         (parse_scheme w u = None \<or>
          (\<exists>s. parse_scheme w u = Some s \<and> s \<noteq> ''http'' \<and> s \<noteq> ''https'') \<or>
          url_length_bound < length u))"
  then have "field = None \<or> field = Some [] \<or> (\<exists>u. field = Some u \<and> \<not> isValidUrl w u)"
    by (auto simp add: isValidUrl_def)
  then show "\<exists>m. fst (createShortLink field w) = \<lparr>success = None, error = Some m, link = None\<rparr>"
    and "snd (createShortLink field w) = w"
    by (auto simp add: createShortLink_def failure_def)
next
  show "(\<exists>m. fst (createShortLink field w) = \<lparr>success = None, error = Some m, link = None\<rparr>) \<or>
    (\<exists>l. fst (createShortLink field w) = \<lparr>success = Some True, error = None, link = Some l\<rparr> \<and>
         l \<in> set (links (snd (createShortLink field w))))"
    by (auto simp add: createShortLink_def insert_link_def create_def failure_def logged_def
        split: option.splits prod.splits sum.splits if_splits)
qed

theorem invalid_url_fails_fast_witness:
  "parse_scheme seeded ''not a url'' = None \<and>
   parse_scheme seeded ''javascript:alert(1)'' = Some ''javascript'' \<and>
   url_length_bound < length (''https://'' @ replicate 2048 (CHR ''a'')) \<and>
   (\<exists>m. fst (createShortLink None seeded) =
          \<lparr>success = None, error = Some m, link = None\<rparr>) \<and>
   snd (createShortLink None seeded) = seeded \<and>
   (\<exists>m. fst (createShortLink (Some ''not a url'') seeded) =
          \<lparr>success = None, error = Some m, link = None\<rparr>) \<and>
   snd (createShortLink (Some ''not a url'') seeded) = seeded \<and>
   (\<exists>m. fst (createShortLink (Some ''javascript:alert(1)'') seeded) =
          \<lparr>success = None, error = Some m, link = None\<rparr>) \<and>
   snd (createShortLink (Some ''javascript:alert(1)'') seeded) = seeded \<and>
   (\<exists>m. fst (createShortLink (Some (''https://'' @ replicate 2048 (CHR ''a''))) seeded) =
          \<lparr>success = None, error = Some m, link = None\<rparr>) \<and>
   snd (createShortLink (Some (''https://'' @ replicate 2048 (CHR ''a''))) seeded) = seeded"
proof -
  let ?long = "''https://'' @ replicate 2048 (CHR ''a'')"
  have a: "parse_scheme seeded ''not a url'' = None"
    by (simp add: seeded_def scheme_before_colon_def)
  have b: "parse_scheme seeded ''javascript:alert(1)'' = Some ''javascript''"
    by (simp add: seeded_def scheme_before_colon_def)
  have c: "url_length_bound < length ?long"
    by (simp add: url_length_bound_def)
  have n: "''javascript'' \<noteq> ''http'' \<and> ''javascript'' \<noteq> ''https''" by simp
  from invalid_url_fails_fast [of None seeded]
  have r0: "(\<exists>m. fst (createShortLink None seeded) =
          \<lparr>success = None, error = Some m, link = None\<rparr>) \<and>
      snd (createShortLink None seeded) = seeded"
    by blast
  from invalid_url_fails_fast [of "Some ''not a url''" seeded] a
  have r1: "(\<exists>m. fst (createShortLink (Some ''not a url'') seeded) =
          \<lparr>success = None, error = Some m, link = None\<rparr>) \<and>
      snd (createShortLink (Some ''not a url'') seeded) = seeded"
    by blast
  from invalid_url_fails_fast [of "Some ''javascript:alert(1)''" seeded] b n
  have r2: "(\<exists>m. fst (createShortLink (Some ''javascript:alert(1)'') seeded) =
          \<lparr>success = None, error = Some m, link = None\<rparr>) \<and>
      snd (createShortLink (Some ''javascript:alert(1)'') seeded) = seeded"
    by blast
  from invalid_url_fails_fast [of "Some ?long" seeded] c
  have r3: "(\<exists>m. fst (createShortLink (Some ?long) seeded) =
          \<lparr>success = None, error = Some m, link = None\<rparr>) \<and>
      snd (createShortLink (Some ?long) seeded) = seeded"
    by blast
  from a b c r0 r1 r2 r3 show ?thesis by blast
qed

section \<open>The retry loop\<close>

lemma retry_loop_collisions:
  "k < n \<Longrightarrow> \<forall>i<k. taken w (gen w (gen_calls w + i)) \<Longrightarrow> \<not> taken w (gen w (gen_calls w + k)) \<Longrightarrow>
   \<forall>j\<le>k. \<not> faults w (length (calls w) + j) \<Longrightarrow>
   retry_loop n w =
     (Inr (Some (gen w (gen_calls w + k))),
      w\<lparr>gen_calls := gen_calls w + Suc k,
        calls := calls w @ map (\<lambda>i. Find_unique (gen w i)) [gen_calls w..<gen_calls w + Suc k]\<rparr>)"
proof (induction n arbitrary: k w)
  case 0
  then show ?case by simp
next
  case (Suc n)
  let ?c = "gen w (gen_calls w)"
  let ?w = "logged (Find_unique ?c) (w\<lparr>gen_calls := Suc (gen_calls w)\<rparr>)"
  from Suc.prems(4) have ok: "\<not> faults w (length (calls w))" by force
  show ?case
  proof (cases k)
    case 0
    with Suc.prems ok show ?thesis
      by (simp add: findUnique_def call_fails_def taken_def logged_def)
  next
    case (Suc k')
    with Suc.prems have t: "taken w ?c" by force
    then obtain x where x: "find (by_code ?c) (links w) = Some x"
      by (auto simp add: taken_def)
    have step: "retry_loop (Suc n) w = retry_loop n ?w"
      using ok x by (simp add: findUnique_def call_fails_def)
    have a: "k' < n" using Suc Suc.prems by simp
    have b: "\<forall>i<k'. taken ?w (gen ?w (gen_calls ?w + i))"
      using Suc.prems(2) Suc by (auto simp add: taken_def logged_def)
    have c: "\<not> taken ?w (gen ?w (gen_calls ?w + k'))"
      using Suc.prems(3) Suc by (simp add: taken_def logged_def)
    have d: "\<forall>j\<le>k'. \<not> faults ?w (length (calls ?w) + j)"
      using Suc.prems(4) Suc by (auto simp add: logged_def)
    have l: "[gen_calls w..<gen_calls w + Suc k] = gen_calls w # [Suc (gen_calls w)..<Suc (gen_calls w) + Suc k']"
      using Suc by (simp add: upt_conv_Cons)
    show ?thesis
      unfolding step Suc.IH [OF a b c d] l
      using Suc by (simp add: logged_def)
  qed
qed

lemma retry_loop_exhausted:
  "\<forall>i<n. taken w (gen w (gen_calls w + i)) \<Longrightarrow> \<forall>j<n. \<not> faults w (length (calls w) + j) \<Longrightarrow>
   retry_loop n w =
     (Inr None,
      w\<lparr>gen_calls := gen_calls w + n,
        calls := calls w @ map (\<lambda>i. Find_unique (gen w i)) [gen_calls w..<gen_calls w + n]\<rparr>)"
proof (induction n arbitrary: w)
  case 0
  then show ?case by simp
next
  case (Suc n)
  let ?c = "gen w (gen_calls w)"
  let ?w = "logged (Find_unique ?c) (w\<lparr>gen_calls := Suc (gen_calls w)\<rparr>)"
  from Suc.prems(2) have ok: "\<not> faults w (length (calls w))" by force
  from Suc.prems(1) have t: "taken w ?c" by force
  then obtain x where x: "find (by_code ?c) (links w) = Some x"
    by (auto simp add: taken_def)
  have step: "retry_loop (Suc n) w = retry_loop n ?w"
    using ok x by (simp add: findUnique_def call_fails_def)
  have b: "\<forall>i<n. taken ?w (gen ?w (gen_calls ?w + i))"
    using Suc.prems(1) by (auto simp add: taken_def logged_def)
  have d: "\<forall>j<n. \<not> faults ?w (length (calls ?w) + j)"
    using Suc.prems(2) by (auto simp add: logged_def)
  have l: "[gen_calls w..<gen_calls w + Suc n] = gen_calls w # [Suc (gen_calls w)..<Suc (gen_calls w) + n]"
    by (simp add: upt_conv_Cons)
  show ?case
    unfolding step Suc.IH [OF b d] l
    by (simp add: logged_def)
qed

lemma retry_loop_numeral:
  "retry_loop (numeral k) w =
     (case findUnique (gen w (gen_calls w)) (w\<lparr>gen_calls := Suc (gen_calls w)\<rparr>) of
        (Inl e, w') \<Rightarrow> (Inl e, w')
      | (Inr None, w') \<Rightarrow> (Inr (Some (gen w (gen_calls w))), w')
      | (Inr (Some existing), w') \<Rightarrow> retry_loop (pred_numeral k) w')"
  by (simp add: numeral_eq_Suc)

section \<open>Collision retries\<close>

lemma one_stored_eq:
  "one_stored =
     \<lparr>links = [\<lparr>link_id = 0, url = ''https://example.com/a/b/c'', shortCode = ''AbC123'',
                 createdAt = 1000, expiresAt = Some 604801000, clicks = 0\<rparr>],
      cache = Map.empty, clock = 1000, store_clock = 1000, LocalTZA = utc_zone, next_id = 1,
      gen = (\<lambda>n. if n < 2 then ''AbC123'' else ''XyZ789''), gen_calls = 1,
      parse_scheme = scheme_before_colon, faults = (\<lambda>n. False),
      calls = [Find_unique ''AbC123'',
               Create ''https://example.com/a/b/c'' ''AbC123'' (Some 604801000)],
      pending = []\<rparr>"
  by (simp add: one_stored_def racing_def create_defs retry_loop_numeral)

text \<open>
  Within one request that no other request interleaves with, and with a store that
  answers, the loop does retry on the collisions its lookups find: after \<open>k \<le> 4\<close> taken
  codes and a free one the link is created with the free code, and after five taken
  codes the request fails with the message for exhausted retries, having made exactly
  five generator calls and five lookups and no insert.
\<close>

lemma retry_bound_within_one_request:
  assumes "u \<noteq> []" and "isValidUrl w u"
    and "\<forall>j\<le>5. \<not> faults w (length (calls w) + j)"
  shows
   "(k \<le> 4 \<and> (\<forall>i<k. taken w (gen w (gen_calls w + i))) \<and> \<not> taken w (gen w (gen_calls w + k)) \<longrightarrow>
      fst (createShortLink (Some u) w) =
        \<lparr>success = Some True, error = None,
         link = Some \<lparr>link_id = next_id w, url = u, shortCode = gen w (gen_calls w + k),
                      createdAt = store_clock w, expiresAt = Some (setDate_plus w 7 (clock w)), clicks = 0\<rparr>\<rparr> \<and>
      links (snd (createShortLink (Some u) w)) =
        links w @ [\<lparr>link_id = next_id w, url = u, shortCode = gen w (gen_calls w + k),
                      createdAt = store_clock w, expiresAt = Some (setDate_plus w 7 (clock w)), clicks = 0\<rparr>] \<and>
      gen_calls (snd (createShortLink (Some u) w)) = gen_calls w + k + 1) \<and>
    ((\<forall>i<5. taken w (gen w (gen_calls w + i))) \<longrightarrow>
      fst (createShortLink (Some u) w) =
        failure ''Failed to generate a unique short code. Please try again.'' \<and>
      gen_calls (snd (createShortLink (Some u) w)) = gen_calls w + 5 \<and>
      calls (snd (createShortLink (Some u) w)) =
        calls w @ map (\<lambda>i. Find_unique (gen w i)) [gen_calls w..<gen_calls w + 5] \<and>
      links (snd (createShortLink (Some u) w)) = links w)"
proof (intro conjI impI)
  assume h: "k \<le> 4 \<and> (\<forall>i<k. taken w (gen w (gen_calls w + i))) \<and> \<not> taken w (gen w (gen_calls w + k))"
  let ?w = "w\<lparr>gen_calls := gen_calls w + Suc k,
        calls := calls w @ map (\<lambda>i. Find_unique (gen w i)) [gen_calls w..<gen_calls w + Suc k]\<rparr>"
  from h have k: "k < 5" by simp
  from h assms(3) have f: "\<forall>j\<le>k. \<not> faults w (length (calls w) + j)" by simp
  from h have "retry_loop 5 w = (Inr (Some (gen w (gen_calls w + k))), ?w)"
    using retry_loop_collisions [OF k _ _ f] by blast
  moreover have "\<not> call_fails ?w"
  proof -
    from h have "Suc k \<le> 5" by simp
    with assms(3) have "\<not> faults w (length (calls w) + Suc k)" by blast
    then show ?thesis by (simp add: call_fails_def)
  qed
  moreover have "\<not> taken ?w (gen w (gen_calls w + k))"
    using h by (simp add: taken_def)
  ultimately have r: "createShortLink (Some u) w =
      (\<lparr>success = Some True, error = None,
         link = Some \<lparr>link_id = next_id w, url = u, shortCode = gen w (gen_calls w + k),
                      createdAt = store_clock w, expiresAt = Some (setDate_plus w 7 (clock w)), clicks = 0\<rparr>\<rparr>,
       logged (Create u (gen w (gen_calls w + k)) (Some (setDate_plus w 7 (clock w))))
         (?w\<lparr>links := links w @
                [\<lparr>link_id = next_id w, url = u, shortCode = gen w (gen_calls w + k),
                   createdAt = store_clock w, expiresAt = Some (setDate_plus w 7 (clock w)), clicks = 0\<rparr>],
             next_id := Suc (next_id w)\<rparr>))"
    using assms(1,2)
    by (simp add: createShortLink_def insert_link_def create_def setDate_plus_def
          LocalTime_def UTC_def)
  show "fst (createShortLink (Some u) w) =
        \<lparr>success = Some True, error = None,
         link = Some \<lparr>link_id = next_id w, url = u, shortCode = gen w (gen_calls w + k),
                      createdAt = store_clock w, expiresAt = Some (setDate_plus w 7 (clock w)), clicks = 0\<rparr>\<rparr>"
    by (simp add: r)
  show "links (snd (createShortLink (Some u) w)) =
        links w @ [\<lparr>link_id = next_id w, url = u, shortCode = gen w (gen_calls w + k),
                      createdAt = store_clock w, expiresAt = Some (setDate_plus w 7 (clock w)), clicks = 0\<rparr>]"
    by (simp add: r logged_def setDate_plus_def LocalTime_def UTC_def)
  show "gen_calls (snd (createShortLink (Some u) w)) = gen_calls w + k + 1"
    by (simp add: r logged_def setDate_plus_def LocalTime_def UTC_def)
next
  assume h: "\<forall>i<5. taken w (gen w (gen_calls w + i))"
  from assms(3) have f: "\<forall>j<5. \<not> faults w (length (calls w) + j)" by simp
  have r: "createShortLink (Some u) w =
      (failure ''Failed to generate a unique short code. Please try again.'',
       w\<lparr>gen_calls := gen_calls w + 5,
         calls := calls w @ map (\<lambda>i. Find_unique (gen w i)) [gen_calls w..<gen_calls w + 5]\<rparr>)"
    using assms(1,2) retry_loop_exhausted [OF h f] by (simp add: createShortLink_def)
  show "fst (createShortLink (Some u) w) =
        failure ''Failed to generate a unique short code. Please try again.''"
    by (simp add: r)
  show "gen_calls (snd (createShortLink (Some u) w)) = gen_calls w + 5"
    by (simp add: r)
  show "calls (snd (createShortLink (Some u) w)) =
        calls w @ map (\<lambda>i. Find_unique (gen w i)) [gen_calls w..<gen_calls w + 5]"
    by (simp add: r)
  show "links (snd (createShortLink (Some u) w)) = links w"
    by (simp add: r)
qed

section \<open>Collisions that show at the insert\<close>

text \<open>
  Claim C4 says that a request whose generator first yields colliding codes and then a
  fresh one succeeds with the fresh code, and that only five collisions in a row make
  it fail. That holds for the collisions \<open>findUnique\<close> sees, not for one that shows at
  the insert. In the interleaving of two requests on \<open>racing\<close>, the second request's
  first code \<open>AbC123\<close> passes its lookup and collides at its \<open>create\<close>; the generator's
  next code \<open>XyZ789\<close> is free and the store answers, yet the request ends after one
  attempt with the generic error: the generator is not called again and nothing is
  inserted.
\<close>

theorem collision_at_insert_not_retried:
  "fst (retry_loop 5 (snd (retry_loop 5 racing))) = Inr (Some ''AbC123'') \<and>
   gen_calls first_inserted = 2 \<and>
   taken first_inserted ''AbC123'' \<and>
   gen first_inserted (gen_calls first_inserted) = ''XyZ789'' \<and>
   \<not> taken first_inserted ''XyZ789'' \<and>
   \<not> call_fails first_inserted \<and>
   fst (insert_link ''https://example.com/second'' ''AbC123'' first_inserted) =
     \<lparr>success = None, error = Some ''An unexpected error occurred'', link = None\<rparr> \<and>
   gen_calls (snd (insert_link ''https://example.com/second'' ''AbC123'' first_inserted)) = 2 \<and>
   links (snd (insert_link ''https://example.com/second'' ''AbC123'' first_inserted)) =
     links first_inserted \<and>
   map url (links first_inserted) = [''https://example.com/first'']"
  by (simp add: first_inserted_def both_checked_def racing_def create_defs retry_loop_numeral)

section \<open>Check, then insert\<close>

text \<open>
  Claim C1 says that creation inserts directly and retries when the insert meets a
  unique violation. \<open>createShortLink\<close> does neither. A creation in \<open>racing\<close> calls
  \<open>findUnique\<close> before \<open>create\<close>. And when two requests draw the same code and both
  run their lookups before either inserts, the second insert meets the unique violation:
  that request ends with the generic error, the generator is not called again, and only
  the first link is stored.
\<close>

theorem check_then_insert_race:
  "calls (snd (createShortLink (Some ''https://example.com/first'') racing)) =
     [Find_unique ''AbC123'', Create ''https://example.com/first'' ''AbC123'' (Some 604801000)] \<and>
   fst (retry_loop 5 racing) = Inr (Some ''AbC123'') \<and>
   fst (retry_loop 5 (snd (retry_loop 5 racing))) = Inr (Some ''AbC123'') \<and>
   success (fst (insert_link ''https://example.com/first'' ''AbC123'' both_checked)) = Some True \<and>
   fst (create ''https://example.com/second'' ''AbC123'' (Some 604801000) first_inserted) =
     Inl Unique_violation \<and>
   fst (insert_link ''https://example.com/second'' ''AbC123'' first_inserted) =
     failure ''An unexpected error occurred'' \<and>
   gen_calls (snd (insert_link ''https://example.com/second'' ''AbC123'' first_inserted)) = 2 \<and>
   calls (snd (insert_link ''https://example.com/second'' ''AbC123'' first_inserted)) =
     [Find_unique ''AbC123'', Find_unique ''AbC123'',
      Create ''https://example.com/first'' ''AbC123'' (Some 604801000),
      Create ''https://example.com/second'' ''AbC123'' (Some 604801000)] \<and>
   map shortCode (links (snd (insert_link ''https://example.com/second'' ''AbC123'' first_inserted))) =
     [''AbC123'']"
  by (simp add: first_inserted_def both_checked_def racing_def create_defs retry_loop_numeral)

section \<open>The created record\<close>

lemma retry_loop_keeps:
  "retry_loop n w = (Inr (Some c), w') \<Longrightarrow>
   (\<exists>i. c = gen w i) \<and> clock w' = clock w \<and> store_clock w' = store_clock w \<and>
   LocalTZA w' = LocalTZA w \<and> links w' = links w \<and> next_id w' = next_id w"
proof (induction n arbitrary: w)
  case 0
  then show ?case by simp
next
  case (Suc n)
  let ?w = "logged (Find_unique (gen w (gen_calls w))) (w\<lparr>gen_calls := Suc (gen_calls w)\<rparr>)"
  show ?case
  proof (cases "call_fails (w\<lparr>gen_calls := Suc (gen_calls w)\<rparr>)")
    case True
    with Suc.prems show ?thesis by (simp add: findUnique_def)
  next
    case up: False
    show ?thesis
    proof (cases "find (by_code (gen w (gen_calls w))) (links w)")
      case None
      with Suc.prems up show ?thesis by (auto simp add: findUnique_def logged_def)
    next
      case (Some x)
      with Suc.prems up have "retry_loop n ?w = (Inr (Some c), w')"
        by (simp add: findUnique_def)
      from Suc.IH [OF this] show ?thesis by (simp add: logged_def)
    qed
  qed
qed

lemma generateShortCode_shape:
  "length (generateShortCode random n) = 6 \<and> set (generateShortCode random n) \<subseteq> set alphabet"
proof -
  have "length alphabet = 62" by (simp add: alphabet_def)
  then have "\<And>x. alphabet ! (x mod length alphabet) \<in> set alphabet"
    by (intro nth_mem) simp
  then show ?thesis by (auto simp add: generateShortCode_def)
qed

lemma setDate_plus_fixed_offset:
  "LocalTZA w (LocalTime w t + n * msPerDay) False = LocalTZA w t True \<Longrightarrow>
   setDate_plus w n t = t + n * msPerDay"
  by (simp add: setDate_plus_def UTC_def LocalTime_def)

text \<open>
  Claim C8 says that \<open>expiresAt\<close> is the creation time plus seven days. The code moves
  the date by seven calendar days of local time, and \<open>createdAt\<close> is read from the
  store's clock. In \<open>spring_forward\<close> the server's clocks go forward within the week:
  the record expires 167 hours after the request was handled, and its \<open>createdAt\<close> is
  the store's 13600040, not the application's 13600000.
\<close>

theorem created_record_counterexample:
  "clock spring_forward = 13600000 \<and>
   fst (createShortLink (Some ''https://example.com/a/b/c'') spring_forward) =
     \<lparr>success = Some True, error = None,
      link = Some \<lparr>link_id = 0, url = ''https://example.com/a/b/c'', shortCode = ''DKRYfm'',
                   createdAt = 13600040, expiresAt = Some 614800000, clicks = 0\<rparr>\<rparr> \<and>
   (614800000 :: int) = 13600000 + 167 * 3600000 \<and>
   (614800000 :: int) \<noteq> 13600000 + 604800000 \<and>
   (614800000 :: int) \<noteq> 13600040 + 604800000"
proof -
  have c: "generateShortCode (\<lambda>n. 7 * n + 3) 0 = ''DKRYfm''"
    by (simp add: generateShortCode_def alphabet_def upt_rec)
  show ?thesis
    by (simp add: spring_forward_def create_defs dst_zone_def retry_loop_numeral c)
qed

text \<open>
  Claim C8, as amended. With the generator of the spec, the record returned by a
  successful \<open>createShortLink\<close> has a short code of six characters of the alphabet
  \<open>[A-Za-z0-9]\<close> and no clicks; its \<open>expiresAt\<close> is the time the request is handled
  moved seven calendar days ahead in the server's local time, which is exactly
  604800000 ms later when the zone's offset is the same at both ends; its \<open>createdAt\<close>
  is the store's own clock reading. The request carried a non-empty URL that
  \<open>isValidUrl\<close> accepts, and the record holds it.
\<close>

theorem created_record_shape:
  assumes "gen w = generateShortCode random"
    and "fst (createShortLink field w) = \<lparr>success = Some True, error = None, link = Some l\<rparr>"
  shows "length (shortCode l) = 6 \<and> set (shortCode l) \<subseteq> set alphabet \<and>
         expiresAt l = Some (setDate_plus w 7 (clock w)) \<and>
         (LocalTZA w (LocalTime w (clock w) + 7 * msPerDay) False = LocalTZA w (clock w) True \<longrightarrow>
            expiresAt l = Some (clock w + 604800000)) \<and>
         createdAt l = store_clock w \<and> clicks l = 0 \<and>
         (\<exists>u. field = Some u \<and> u \<noteq> [] \<and> isValidUrl w u \<and> url l = u)"
proof -
  from assms(2) obtain u where u: "field = Some u" "u \<noteq> []" "isValidUrl w u"
    by (auto simp add: createShortLink_def failure_def split: option.splits if_splits)
  from assms(2) u obtain c w' where r: "retry_loop 5 w = (Inr (Some c), w')"
    and i: "fst (insert_link u c w') = \<lparr>success = Some True, error = None, link = Some l\<rparr>"
    by (auto simp add: createShortLink_def failure_def split: prod.splits sum.splits option.splits)
  from retry_loop_keeps [OF r] obtain n where c: "c = gen w n" and k: "clock w' = clock w"
    "store_clock w' = store_clock w" "LocalTZA w' = LocalTZA w"
    by blast
  from k have d: "setDate_plus w' 7 (clock w') = setDate_plus w 7 (clock w)"
    by (simp add: setDate_plus_def UTC_def LocalTime_def)
  from i have l: "l = \<lparr>link_id = next_id w', url = u, shortCode = c, createdAt = store_clock w',
      expiresAt = Some (setDate_plus w' 7 (clock w')), clicks = 0\<rparr>"
    by (auto simp add: insert_link_def create_def failure_def split: if_splits)
  from c assms(1) have s: "shortCode l = generateShortCode random n" by (simp add: l)
  have e: "expiresAt l = Some (setDate_plus w 7 (clock w))" by (simp add: l d)
  have f: "LocalTZA w (LocalTime w (clock w) + 7 * msPerDay) False = LocalTZA w (clock w) True \<Longrightarrow>
      expiresAt l = Some (clock w + 604800000)"
    using setDate_plus_fixed_offset [of w "clock w" 7] e by (simp add: msPerDay_def)
  from generateShortCode_shape [of random n] s u l k e f show ?thesis by simp
qed

theorem created_record_shape_witness:
  "gen drawing = generateShortCode (\<lambda>n. 7 * n + 3) \<and>
   fst (createShortLink (Some ''https://example.com/a/b/c'') drawing) =
     \<lparr>success = Some True, error = None,
      link = Some \<lparr>link_id = 0, url = ''https://example.com/a/b/c'', shortCode = ''DKRYfm'',
                   createdAt = 1000, expiresAt = Some 604801000, clicks = 0\<rparr>\<rparr> \<and>
   LocalTZA drawing (LocalTime drawing (clock drawing) + 7 * msPerDay) False =
     LocalTZA drawing (clock drawing) True \<and>
   clock drawing = 1000 \<and> store_clock drawing = 1000 \<and>
   setDate_plus drawing 7 (clock drawing) = 604801000 \<and>
   length ''DKRYfm'' = 6 \<and> set ''DKRYfm'' \<subseteq> set alphabet"
proof -
  let ?l = "\<lparr>link_id = 0, url = ''https://example.com/a/b/c'', shortCode = ''DKRYfm'',
                   createdAt = 1000, expiresAt = Some 604801000, clicks = 0\<rparr>"
  have g: "gen drawing = generateShortCode (\<lambda>n. 7 * n + 3)" by (simp add: drawing_def)
  have c: "generateShortCode (\<lambda>n. 7 * n + 3) 0 = ''DKRYfm''"
    by (simp add: generateShortCode_def alphabet_def upt_rec)
  have r: "fst (createShortLink (Some ''https://example.com/a/b/c'') drawing) =
     \<lparr>success = Some True, error = None, link = Some ?l\<rparr>"
    by (simp add: drawing_def create_defs retry_loop_numeral c)
  have z: "LocalTZA drawing (LocalTime drawing (clock drawing) + 7 * msPerDay) False =
      LocalTZA drawing (clock drawing) True"
    "clock drawing = 1000" "store_clock drawing = 1000"
    by (simp_all add: drawing_def utc_zone_def)
  from created_record_shape [OF g r]
  have "length (shortCode ?l) = 6 \<and> set (shortCode ?l) \<subseteq> set alphabet \<and>
      expiresAt ?l = Some (setDate_plus drawing 7 (clock drawing))"
    by blast
  with g r z show ?thesis by simp
qed

section \<open>The click counter\<close>

lemma no_click_lost_refl: "no_click_lost ls ls"
  by (induction ls) auto

lemma no_click_lost_trans:
  "no_click_lost xs ys \<Longrightarrow> no_click_lost ys zs \<Longrightarrow> no_click_lost xs zs"
proof (induction xs ys arbitrary: zs rule: no_click_lost.induct)
  case (1 new)
  then show ?case by simp
next
  case (2 a old)
  then show ?case by simp
next
  case (3 a old b new)
  then show ?case by (cases zs) auto
qed

lemma no_click_lost_append: "no_click_lost ls (ls @ new)"
  by (induction ls) auto

lemma no_click_lost_increment: "no_click_lost ls (increment_clicks p ls)"
  by (induction ls) (auto simp add: no_click_lost_refl)

lemma increment_clicks_one:
  "find p ls \<noteq> None \<Longrightarrow>
   \<exists>i<length ls. increment_clicks p ls = ls[i := (ls ! i)\<lparr>clicks := clicks (ls ! i) + 1\<rparr>]"
proof (induction ls)
  case Nil
  then show ?case by simp
next
  case (Cons l ls)
  show ?case
  proof (cases "p l")
    case True
    then have "increment_clicks p (l # ls) = (l # ls)[0 := ((l # ls) ! 0)\<lparr>clicks := clicks ((l # ls) ! 0) + 1\<rparr>]"
      by simp
    then show ?thesis by blast
  next
    case False
    with Cons obtain i where i: "i < length ls"
      "increment_clicks p ls = ls[i := (ls ! i)\<lparr>clicks := clicks (ls ! i) + 1\<rparr>]"
      by auto
    with False have "increment_clicks p (l # ls) =
        (l # ls)[Suc i := ((l # ls) ! Suc i)\<lparr>clicks := clicks ((l # ls) ! Suc i) + 1\<rparr>]"
      by simp
    with i(1) show ?thesis by (intro exI [of _ "Suc i"]) simp
  qed
qed

lemma increment_clicks_nonneg:
  "\<forall>l\<in>set ls. 0 \<le> clicks l \<Longrightarrow> \<forall>l\<in>set (increment_clicks p ls). 0 \<le> clicks l"
  by (induction ls) auto

lemma update_links:
  "links (snd (update p c w)) = links w \<or>
   (find p (links w) \<noteq> None \<and> links (snd (update p c w)) = increment_clicks p (links w))"
  by (simp add: update_def logged_def)

lemma run_task_links:
  "links (run_task t w) = links w \<or>
   (\<exists>p. find p (links w) \<noteq> None \<and> links (run_task t w) = increment_clicks p (links w))"
proof (cases t)
  case (Hit_task code)
  with update_links [of "by_code code" "Update_by_code code" w] show ?thesis by auto
next
  case (Miss_task code u ttl i)
  show ?thesis
  proof (cases "call_fails w")
    case True
    with Miss_task show ?thesis by (simp add: redis_set_def logged_def)
  next
    case False
    let ?w = "logged (Redis_set (cache_key code) u ttl)
        (w\<lparr>cache := (cache w)(cache_key code \<mapsto> (u, clock w + ttl * 1000))\<rparr>)"
    from False Miss_task have "run_task t w = snd (update (by_id i) (Update_by_id i) ?w)"
      by (simp add: redis_set_def)
    moreover have "links ?w = links w" by (simp add: logged_def)
    ultimately show ?thesis
      using update_links [of "by_id i" "Update_by_id i" ?w] by auto
  qed
qed

lemma run_task_one_click:
  "links (run_task t w) = links w \<or>
   (\<exists>i<length (links w).
      links (run_task t w) = (links w)[i := (links w ! i)\<lparr>clicks := clicks (links w ! i) + 1\<rparr>])"
  using run_task_links [of t w] increment_clicks_one by metis

lemma retry_loop_links: "links (snd (retry_loop n w)) = links w"
proof (induction n arbitrary: w)
  case 0
  then show ?case by simp
next
  case (Suc n)
  show ?case
    by (auto simp add: findUnique_def logged_def Suc.IH split: option.splits)
qed

lemma insert_link_links:
  "links (snd (insert_link u c w)) = links w \<or>
   (\<exists>l. clicks l = 0 \<and> links (snd (insert_link u c w)) = links w @ [l])"
  by (simp add: insert_link_def create_def logged_def)

lemma createShortLink_links:
  "links (snd (createShortLink field w)) = links w \<or>
   (\<exists>l. clicks l = 0 \<and> links (snd (createShortLink field w)) = links w @ [l])"
proof (cases "\<exists>u c. field = Some u \<and> u \<noteq> [] \<and> isValidUrl w u \<and> fst (retry_loop 5 w) = Inr (Some c)")
  case True
  then obtain u c where h: "field = Some u" "u \<noteq> []" "isValidUrl w u"
    "fst (retry_loop 5 w) = Inr (Some c)" by blast
  then have "createShortLink field w = insert_link u c (snd (retry_loop 5 w))"
    by (cases "retry_loop 5 w") (simp add: createShortLink_def)
  with insert_link_links [of u c "snd (retry_loop 5 w)"] retry_loop_links [of 5 w]
  show ?thesis by simp
next
  case False
  then have "links (snd (createShortLink field w)) = links (snd (retry_loop 5 w)) \<or>
      links (snd (createShortLink field w)) = links w"
    by (cases "retry_loop 5 w")
      (auto simp add: createShortLink_def split: option.splits sum.splits)
  with retry_loop_links [of 5 w] show ?thesis by auto
qed

lemma created_clicks:
  "fst (createShortLink field w) = \<lparr>success = Some True, error = None, link = Some l\<rparr> \<Longrightarrow>
   clicks l = 0"
  by (auto simp add: createShortLink_def insert_link_def create_def failure_def
      split: option.splits prod.splits sum.splits if_splits)

lemma api_links_GET_links: "links (snd (api_links_GET w)) = links w"
  by (simp add: api_links_GET_def getRecentLinks_def findMany_def logged_def)

lemma step_links:
  "links (step e w) = links w \<or>
   (\<exists>l. clicks l = 0 \<and> links (step e w) = links w @ [l]) \<or>
   (\<exists>p. links (step e w) = increment_clicks p (links w))"
proof (cases e)
  case (Creation field)
  with createShortLink_links [of field w] show ?thesis by auto
next
  case (Visit code)
  then show ?thesis by (simp add: GET_links)
next
  case Listing
  then show ?thesis by (simp add: api_links_GET_links)
next
  case (Background n)
  let ?w = "w\<lparr>pending := take n (pending w) @ drop (Suc n) (pending w)\<rparr>"
  have "links ?w = links w" by simp
  with run_task_links [of "pending w ! n" ?w] Background show ?thesis by auto
next
  case (Elapse d)
  then show ?thesis by simp
qed

lemma step_no_click_lost: "no_click_lost (links w) (links (step e w))"
  using step_links [of e w]
  by (auto simp add: no_click_lost_refl no_click_lost_append no_click_lost_increment)

lemma step_nonneg:
  "\<forall>l\<in>set (links w). 0 \<le> clicks l \<Longrightarrow> \<forall>l\<in>set (links (step e w)). 0 \<le> clicks l"
  using step_links [of e w] increment_clicks_nonneg [of "links w"]
  by auto

lemma run_no_click_lost: "no_click_lost (links w) (links (run es w))"
proof (induction es arbitrary: w)
  case Nil
  then show ?case by (simp add: no_click_lost_refl)
next
  case (Cons e es)
  from step_no_click_lost [of w e] Cons [of "step e w"] show ?case
    by (simp add: no_click_lost_trans)
qed

lemma run_nonneg:
  "\<forall>l\<in>set (links w). 0 \<le> clicks l \<Longrightarrow> \<forall>l\<in>set (links (run es w)). 0 \<le> clicks l"
proof (induction es arbitrary: w)
  case Nil
  then show ?case by simp
next
  case (Cons e es)
  from step_nonneg [OF Cons.prems] have "\<forall>l\<in>set (links (step e w)). 0 \<le> clicks l" .
  from Cons.IH [OF this] show ?case by simp
qed

text \<open>
  Claim C5. Over any history of creations, redirects, listings, callbacks and passing
  time, counters that start non-negative stay so, and every record keeps its place, its
  id and its code with a counter at least as large as before. A created record starts
  at 0. The redirect handler itself changes no record; a callback either leaves the
  table as it is or adds exactly 1 to the counter of one record, through a single
  \<open>update\<close> call with \<open>increment\<close> that is preceded by no read of the store.
\<close>

theorem clicks_never_decrease:
  "((\<forall>l\<in>set (links w). 0 \<le> clicks l) \<longrightarrow> (\<forall>l\<in>set (links (run es w)). 0 \<le> clicks l)) \<and>
   no_click_lost (links w) (links (run es w)) \<and>
   (fst (createShortLink field w) = \<lparr>success = Some True, error = None, link = Some l\<rparr> \<longrightarrow>
      clicks l = 0) \<and>
   links (snd (GET code w)) = links w \<and>
   (links (run_task t w) = links w \<or>
    (\<exists>i<length (links w).
       links (run_task t w) =
         (links w)[i := (links w ! i)\<lparr>clicks := clicks (links w ! i) + 1\<rparr>])) \<and>
   calls (run_task (Hit_task code) w) = calls w @ [Update_by_code code] \<and>
   calls (run_task (Miss_task code u ttl n) w) =
     calls w @ (if call_fails w then [Redis_set (cache_key code) u ttl]
                else [Redis_set (cache_key code) u ttl, Update_by_id n])"
  using run_nonneg [of w es] run_no_click_lost [of w es] created_clicks [of field w l]
    GET_links [of code w] run_task_one_click [of t w] run_hit_task_calls [of code w]
    run_miss_task_calls [of code u ttl n w]
  by blast

theorem clicks_never_decrease_witness:
  "list_all (\<lambda>l. 0 \<le> clicks l) (links one_stored) \<and>
   list_all (\<lambda>l. 0 \<le> clicks l) (links (run [Visit ''AbC123'', Background 0] one_stored)) \<and>
   no_click_lost (links one_stored) (links (run [Visit ''AbC123'', Background 0] one_stored)) \<and>
   map clicks (links one_stored) = [0] \<and>
   map clicks (links (run [Visit ''AbC123'', Background 0] one_stored)) = [1] \<and>
   fst (createShortLink (Some ''https://example.com/second'') one_stored) =
     \<lparr>success = Some True, error = None,
      link = Some \<lparr>link_id = 1, url = ''https://example.com/second'', shortCode = ''XyZ789'',
                   createdAt = 1000, expiresAt = Some 604801000, clicks = 0\<rparr>\<rparr> \<and>
   clicks \<lparr>link_id = 1, url = ''https://example.com/second'', shortCode = ''XyZ789'',
           createdAt = 1000, expiresAt = Some 604801000, clicks = 0\<rparr> = 0"
proof -
  let ?l = "\<lparr>link_id = 1, url = ''https://example.com/second'', shortCode = ''XyZ789'',
             createdAt = 1000, expiresAt = Some 604801000, clicks = 0\<rparr>"
  let ?es = "[Visit ''AbC123'', Background 0]"
  have h: "\<forall>l\<in>set (links one_stored). 0 \<le> clicks l" by (simp add: one_stored_eq)
  have r: "fst (createShortLink (Some ''https://example.com/second'') one_stored) =
      \<lparr>success = Some True, error = None, link = Some ?l\<rparr>"
    by (simp add: one_stored_eq create_defs retry_loop_numeral)
  have v: "map clicks (links one_stored) = [0]"
    "map clicks (links (run ?es one_stored)) = [1]"
    by (simp_all add: one_stored_eq eval_defs)
  from clicks_never_decrease [of one_stored ?es "Some ''https://example.com/second''" ?l] h r
  have "(\<forall>l\<in>set (links (run ?es one_stored)). 0 \<le> clicks l) \<and>
      no_click_lost (links one_stored) (links (run ?es one_stored)) \<and> clicks ?l = 0"
    by blast
  with h r v show ?thesis unfolding list_all_iff by blast
qed

end
